theory Spec2Isabelle
  imports Main "HOL-Library.Word"
begin

section \<open>Local store types\<close>

text \<open>
  The embedding follows \<^verbatim>\<open>src/src/index.ts\<close>. A TypeScript interface is a record, a
  union of string literals is a datatype, and an optional property \<^verbatim>\<open>f?: T\<close> is a field
  of type \<open>T option\<close> (\<open>None\<close> is \<^verbatim>\<open>undefined\<close>). Field names are the source's; where
  two interfaces share a field name, or a name is taken by HOL (\<^verbatim>\<open>id\<close>), the field
  carries a short prefix of its interface. A \<^verbatim>\<open>number\<close> that the code only copies
  (\<^verbatim>\<open>price\<close>, \<^verbatim>\<open>file_size_bytes\<close>) is an \<open>int\<close>; a value of type \<^verbatim>\<open>object\<close> is a JSON tree.
\<close>

datatype delivery_kind = Download | Repo | Api | Manual

datatype product_status = Draft | Ready | Synced | Modified

datatype json = JNull | JBool bool | JNum int | JStr string
  | JArr "json list" | JObj "(string \<times> json) list"

record StoreProfile =
  sp_name :: "string option"
  sp_tagline :: "string option"
  sp_description :: "string option"
  sp_logo_url :: "string option"
  sp_banner_url :: "string option"
  sp_social_links :: "(string \<times> string) list option"

record LocalProduct =
  local_id :: string
  remote_id :: "string option"
  name :: string
  description :: string
  category_id :: string
  price :: int
  delivery_type :: delivery_kind
  delivery_payload :: "json option"
  content_hash :: "string option"
  file_size_bytes :: "int option"
  status :: product_status
  created_at :: string
  updated_at :: string
  synced_at :: "string option"

datatype sync_direction = Push | Pull

record SyncHistoryEntry =
  h_id :: string
  h_direction :: sync_direction
  h_timestamp :: string
  h_products_synced :: nat

record LocalStore =
  version :: string
  profile :: StoreProfile
  products :: "LocalProduct list"
  sync_history :: "SyncHistoryEntry list"
  last_sync :: "string option"

text \<open>
  The argument of \<^verbatim>\<open>createProduct\<close>:
  \<^verbatim>\<open>Omit<LocalProduct, 'local_id' | 'status' | 'created_at' | 'updated_at'>\<close>.
\<close>

record NewProduct =
  n_remote_id :: "string option"
  n_name :: string
  n_description :: string
  n_category_id :: string
  n_price :: int
  n_delivery_type :: delivery_kind
  n_delivery_payload :: "json option"
  n_content_hash :: "string option"
  n_file_size_bytes :: "int option"
  n_synced_at :: "string option"

text \<open>
  The argument of \<^verbatim>\<open>updateProduct\<close>: \<^verbatim>\<open>Partial<LocalProduct>\<close>. For every key, \<open>None\<close>
  says that the object does not have the key. For a key that is optional in
  \<^verbatim>\<open>LocalProduct\<close> the object may also hold the key with the value \<^verbatim>\<open>undefined\<close>
  (\<open>Some None\<close>), which a spread copies like any other value. A key that is required in
  \<^verbatim>\<open>LocalProduct\<close> is taken to hold a value of its type when it is present: with
  \<^verbatim>\<open>undefined\<close> there the result of \<^verbatim>\<open>updateProduct\<close> would not be a \<^verbatim>\<open>LocalProduct\<close>.
\<close>

record ProductUpdates =
  u_local_id :: "string option"
  u_remote_id :: "string option option"
  u_name :: "string option"
  u_description :: "string option"
  u_category_id :: "string option"
  u_price :: "int option"
  u_delivery_type :: "delivery_kind option"
  u_delivery_payload :: "json option option"
  u_content_hash :: "string option option"
  u_file_size_bytes :: "int option option"
  u_status :: "product_status option"
  u_created_at :: "string option"
  u_updated_at :: "string option"
  u_synced_at :: "string option option"

record ManifestData =
  d_name :: string
  d_description :: string
  d_category_id :: string
  d_price :: int
  d_delivery_type :: delivery_kind
  d_delivery_payload :: "json option"
  d_content_hash :: "string option"
  d_file_size_bytes :: "int option"

datatype sync_action = Create | Update | Delete | Unchanged

record ManifestEntry =
  e_local_id :: string
  e_remote_id :: "string option"
  e_action :: sync_action
  e_data :: "ManifestData option"
  e_local_updated_at :: string

record SyncManifest =
  m_version :: string
  m_agent_id :: string
  m_timestamp :: string
  m_products :: "ManifestEntry list"
  m_store_profile :: "StoreProfile option"
  m_checksum :: string

record IdPair =
  pr_local_id :: string
  pr_remote_id :: string

record SyncError =
  er_local_id :: string
  er_error :: string

record SyncResults =
  created :: "IdPair list"
  updated :: "IdPair list"
  deleted :: "string list"
  errors :: "SyncError list"

record SyncResult =
  sync_id :: string
  timestamp :: string
  results :: SyncResults

section \<open>JavaScript helpers\<close>

text \<open>
  The truth value of a \<^verbatim>\<open>string | undefined\<close>, as in \<^verbatim>\<open>existing.remote_id ? ... : ...\<close>
  and \<^verbatim>\<open>!p.remote_id\<close>: \<^verbatim>\<open>undefined\<close> and the empty string are false, every other
  string is true.
\<close>

definition truthy :: "string option \<Rightarrow> bool" where
  "truthy v = (case v of None \<Rightarrow> False | Some s \<Rightarrow> s \<noteq> [])"

text \<open>
  One property in \<^verbatim>\<open>{ ...existing, ...updates }\<close>: the value of \<^verbatim>\<open>updates\<close> when it has
  the key, that of \<^verbatim>\<open>existing\<close> otherwise.
\<close>

definition spread :: "'a \<Rightarrow> 'a option \<Rightarrow> 'a" where
  "spread old upd = (case upd of None \<Rightarrow> old | Some v \<Rightarrow> v)"

text \<open>\<^verbatim>\<open>Array.prototype.findIndex\<close>; \<open>None\<close> is the result \<^verbatim>\<open>-1\<close>.\<close>

fun findIndex :: "('a \<Rightarrow> bool) \<Rightarrow> 'a list \<Rightarrow> nat option" where
  "findIndex P [] = None"
| "findIndex P (x # xs) = (if P x then Some 0 else map_option Suc (findIndex P xs))"

text \<open>\<^verbatim>\<open>Array.prototype.splice(index, 1)\<close>.\<close>

definition splice1 :: "nat \<Rightarrow> 'a list \<Rightarrow> 'a list" where
  "splice1 index xs = take index xs @ drop (Suc index) xs"

text \<open>
  \<^verbatim>\<open>Number.prototype.toString(radix)\<close> on a non-negative integer, for the radixes 36
  and 16 that the code uses.
\<close>

definition digitChar :: "nat \<Rightarrow> char" where
  "digitChar d = ''0123456789abcdefghijklmnopqrstuvwxyz'' ! d"

function toStringRadix :: "nat \<Rightarrow> nat \<Rightarrow> string" where
  "toStringRadix b n =
     (if n < b \<or> b < 2 then [digitChar n]
      else toStringRadix b (n div b) @ [digitChar (n mod b)])"
  by pat_completeness auto
termination
  by (relation "measure (\<lambda>(b, n). n)") auto

declare toStringRadix.simps [simp del]

section \<open>LocalStoreManager\<close>

text \<open>
  The manager's only mutable state that the operations below touch is \<^verbatim>\<open>this.store\<close>.
  Each method takes the store and returns its result together with the store it leaves.
  What a method reads from the clock or the random generator is an argument.
\<close>

definition getDefaultStore :: LocalStore where
  "getDefaultStore =
     \<lparr> version = ''1.0.0'',
       profile = \<lparr> sp_name = None, sp_tagline = None, sp_description = None,
                   sp_logo_url = None, sp_banner_url = None, sp_social_links = None \<rparr>,
       products = [], sync_history = [], last_sync = None \<rparr>"

definition getProducts :: "LocalStore \<Rightarrow> LocalProduct list" where
  "getProducts s = products s"

definition getProduct :: "LocalStore \<Rightarrow> string \<Rightarrow> LocalProduct option" where
  "getProduct s localId = find (\<lambda>p. local_id p = localId) (products s)"

text \<open>
  \<^verbatim>\<open>'local_' + Date.now().toString(36) + Math.random().toString(36).substr(2, 9)\<close>:
  \<open>now_ms\<close> is \<^verbatim>\<open>Date.now()\<close> and \<open>rnd\<close> is the string \<^verbatim>\<open>Math.random().toString(36)\<close>.
\<close>

definition generateId :: "nat \<Rightarrow> string \<Rightarrow> string" where
  "generateId now_ms rnd = ''local_'' @ toStringRadix 36 now_ms @ take 9 (drop 2 rnd)"

text \<open>
  \<^verbatim>\<open>createProduct\<close>: the two \<^verbatim>\<open>new Date().toISOString()\<close> calls are \<open>t_created\<close> and
  \<open>t_updated\<close>.
\<close>

definition createProduct ::
  "LocalStore \<Rightarrow> NewProduct \<Rightarrow> nat \<Rightarrow> string \<Rightarrow> string \<Rightarrow> string \<Rightarrow> LocalProduct \<times> LocalStore" where
  "createProduct s product now_ms rnd t_created t_updated =
     (let newProduct =
        \<lparr> local_id = generateId now_ms rnd,
          remote_id = n_remote_id product,
          name = n_name product,
          description = n_description product,
          category_id = n_category_id product,
          price = n_price product,
          delivery_type = n_delivery_type product,
          delivery_payload = n_delivery_payload product,
          content_hash = n_content_hash product,
          file_size_bytes = n_file_size_bytes product,
          status = Draft,
          created_at = t_created,
          updated_at = t_updated,
          synced_at = n_synced_at product \<rparr>
      in (newProduct, s\<lparr>products := products s @ [newProduct]\<rparr>))"

text \<open>
  \<^verbatim>\<open>updateProduct\<close>: \<open>None\<close> is the result \<^verbatim>\<open>null\<close>. The object literal lists
  \<^verbatim>\<open>local_id\<close>, \<^verbatim>\<open>updated_at\<close> and \<^verbatim>\<open>status\<close> after the two spreads, so these three override
  whatever \<^verbatim>\<open>updates\<close> holds for them.
\<close>

definition updateProduct ::
  "LocalStore \<Rightarrow> string \<Rightarrow> ProductUpdates \<Rightarrow> string \<Rightarrow> LocalProduct option \<times> LocalStore" where
  "updateProduct s localId updates now =
     (case findIndex (\<lambda>p. local_id p = localId) (products s) of
        None \<Rightarrow> (None, s)
      | Some index \<Rightarrow>
          (let existing = products s ! index;
               updated =
                 \<lparr> local_id = local_id existing,
                   remote_id = spread (remote_id existing) (u_remote_id updates),
                   name = spread (name existing) (u_name updates),
                   description = spread (description existing) (u_description updates),
                   category_id = spread (category_id existing) (u_category_id updates),
                   price = spread (price existing) (u_price updates),
                   delivery_type = spread (delivery_type existing) (u_delivery_type updates),
                   delivery_payload =
                     spread (delivery_payload existing) (u_delivery_payload updates),
                   content_hash = spread (content_hash existing) (u_content_hash updates),
                   file_size_bytes =
                     spread (file_size_bytes existing) (u_file_size_bytes updates),
                   status = (if truthy (remote_id existing) then Modified else status existing),
                   created_at = spread (created_at existing) (u_created_at updates),
                   updated_at = now,
                   synced_at = spread (synced_at existing) (u_synced_at updates) \<rparr>
           in (Some updated, s\<lparr>products := (products s)[index := updated]\<rparr>)))"

definition deleteProduct :: "LocalStore \<Rightarrow> string \<Rightarrow> bool \<times> LocalStore" where
  "deleteProduct s localId =
     (case findIndex (\<lambda>p. local_id p = localId) (products s) of
        None \<Rightarrow> (False, s)
      | Some index \<Rightarrow> (True, s\<lparr>products := splice1 index (products s)\<rparr>))"

text \<open>The object literal \<^verbatim>\<open>{}\<close> as a \<^verbatim>\<open>Partial<LocalProduct>\<close>.\<close>

definition noUpdates :: ProductUpdates where
  "noUpdates =
     \<lparr> u_local_id = None, u_remote_id = None, u_name = None, u_description = None,
       u_category_id = None, u_price = None, u_delivery_type = None,
       u_delivery_payload = None, u_content_hash = None, u_file_size_bytes = None,
       u_status = None, u_created_at = None, u_updated_at = None, u_synced_at = None \<rparr>"

text \<open>\<^verbatim>\<open>markReady\<close>: \<^verbatim>\<open>return this.updateProduct(localId, { status: 'ready' })\<close>.\<close>

definition markReady :: "LocalStore \<Rightarrow> string \<Rightarrow> string \<Rightarrow> LocalProduct option \<times> LocalStore" where
  "markReady s localId now = updateProduct s localId (noUpdates\<lparr>u_status := Some Ready\<rparr>) now"


text \<open>
  \<^verbatim>\<open>generateChecksum\<close>: \<open>stringify\<close> stands for \<^verbatim>\<open>JSON.stringify\<close> and gives the UTF-16
  code units that \<^verbatim>\<open>charCodeAt\<close> reads. \<^verbatim>\<open>hash & hash\<close> truncates to 32 bits after every
  step, so the loop is arithmetic on a 32-bit word; \<^verbatim>\<open>Math.abs\<close> reads it as signed.
\<close>

fun checksumLoop :: "32 word \<Rightarrow> nat list \<Rightarrow> 32 word" where
  "checksumLoop hash [] = hash"
| "checksumLoop hash (c # cs) = checksumLoop (push_bit 5 hash - hash + of_nat c) cs"

definition generateChecksum :: "('d \<Rightarrow> nat list) \<Rightarrow> 'd \<Rightarrow> string" where
  "generateChecksum stringify d =
     toStringRadix 16 (nat \<bar>sint (checksumLoop 0 (stringify d))\<bar>)"

text \<open>The callback of \<^verbatim>\<open>.map\<close> in \<^verbatim>\<open>generateSyncManifest\<close>.\<close>

definition manifestEntry :: "LocalProduct \<Rightarrow> ManifestEntry" where
  "manifestEntry p =
     (let action =
        (if \<not> truthy (remote_id p) \<and> status p = Ready then Create
         else if truthy (remote_id p) \<and> status p = Modified then Update
         else Unchanged)
      in \<lparr> e_local_id = local_id p,
           e_remote_id = remote_id p,
           e_action = action,
           e_data =
             (if action \<noteq> Unchanged
              then Some \<lparr> d_name = name p,
                          d_description = description p,
                          d_category_id = category_id p,
                          d_price = price p,
                          d_delivery_type = delivery_type p,
                          d_delivery_payload = delivery_payload p,
                          d_content_hash = content_hash p,
                          d_file_size_bytes = file_size_bytes p \<rparr>
              else None),
           e_local_updated_at = updated_at p \<rparr>)"

definition generateSyncManifest ::
  "(ManifestEntry list \<Rightarrow> nat list) \<Rightarrow> LocalStore \<Rightarrow> string \<Rightarrow> string \<Rightarrow> SyncManifest" where
  "generateSyncManifest stringify s agentId now =
     (let entries = map manifestEntry (filter (\<lambda>p. status p \<noteq> Draft) (products s))
      in \<lparr> m_version = ''1.0.0'',
           m_agent_id = agentId,
           m_timestamp = now,
           m_products = entries,
           m_store_profile = Some (profile s),
           m_checksum = generateChecksum stringify entries \<rparr>)"

text \<open>
  \<^verbatim>\<open>applySyncResults\<close>. \<^verbatim>\<open>find\<close> returns the first product with the given \<^verbatim>\<open>local_id\<close>
  and the assignments mutate that element of the array in place; the model rewrites
  the element at the index that \<^verbatim>\<open>find\<close> stops at.
\<close>

definition applyCreated :: "string \<Rightarrow> IdPair \<Rightarrow> LocalProduct list \<Rightarrow> LocalProduct list" where
  "applyCreated ts c ps =
     (case findIndex (\<lambda>p. local_id p = pr_local_id c) ps of
        None \<Rightarrow> ps
      | Some i \<Rightarrow>
          ps[i := (ps ! i)\<lparr>remote_id := Some (pr_remote_id c), status := Synced,
                          synced_at := Some ts\<rparr>])"

definition applyUpdated :: "string \<Rightarrow> IdPair \<Rightarrow> LocalProduct list \<Rightarrow> LocalProduct list" where
  "applyUpdated ts u ps =
     (case findIndex (\<lambda>p. local_id p = pr_local_id u) ps of
        None \<Rightarrow> ps
      | Some i \<Rightarrow> ps[i := (ps ! i)\<lparr>status := Synced, synced_at := Some ts\<rparr>])"

fun createdLoop :: "string \<Rightarrow> IdPair list \<Rightarrow> LocalProduct list \<Rightarrow> LocalProduct list" where
  "createdLoop ts [] ps = ps"
| "createdLoop ts (c # cs) ps = createdLoop ts cs (applyCreated ts c ps)"

fun updatedLoop :: "string \<Rightarrow> IdPair list \<Rightarrow> LocalProduct list \<Rightarrow> LocalProduct list" where
  "updatedLoop ts [] ps = ps"
| "updatedLoop ts (u # us) ps = updatedLoop ts us (applyUpdated ts u ps)"

definition applySyncResults :: "LocalStore \<Rightarrow> SyncResult \<Rightarrow> LocalStore" where
  "applySyncResults s r =
     s\<lparr> products :=
          updatedLoop (timestamp r) (updated (results r))
            (createdLoop (timestamp r) (created (results r)) (products s)),
        sync_history :=
          sync_history s @
            [\<lparr> h_id = sync_id r, h_direction = Push, h_timestamp = timestamp r,
               h_products_synced =
                 length (created (results r)) + length (updated (results r)) \<rparr>],
        last_sync := Some (timestamp r) \<rparr>"

section \<open>Sequences of store operations\<close>

text \<open>
  One call of a mutating method of the manager, with the values the call reads from its
  environment, and the store the call leaves.
\<close>

datatype store_op =
    OpCreate NewProduct nat string string string
  | OpUpdate string ProductUpdates string
  | OpMarkReady string string
  | OpDelete string
  | OpApply SyncResult

fun step :: "LocalStore \<Rightarrow> store_op \<Rightarrow> LocalStore" where
  "step s (OpCreate product now_ms rnd t_created t_updated) =
     snd (createProduct s product now_ms rnd t_created t_updated)"
| "step s (OpUpdate localId updates now) = snd (updateProduct s localId updates now)"
| "step s (OpMarkReady localId now) = snd (markReady s localId now)"
| "step s (OpDelete localId) = snd (deleteProduct s localId)"
| "step s (OpApply r) = applySyncResults s r"

fun run :: "LocalStore \<Rightarrow> store_op list \<Rightarrow> LocalStore" where
  "run s [] = s"
| "run s (op # ops) = run (step s op) ops"

section \<open>SovereignClient\<close>

record ApiError =
  code :: string
  message :: string
  required :: "int option"
  endpoint :: "string option"

text \<open>The result of \<^verbatim>\<open>parseInt\<close>: a whole number or \<^verbatim>\<open>NaN\<close>.\<close>

datatype parsed_int = NaN | IntVal int

record ResponseHeaders =
  creditsCharged :: "parsed_int option"
  creditsRemaining :: "parsed_int option"

record 'a ApiResponse =
  success :: bool
  data :: "'a option"
  error :: "ApiError option"
  headers :: "ResponseHeaders option"

record Agent =
  a_id :: string
  wallet_address :: string
  display_name :: "string option"
  trade :: "string option"
  level :: int
  xp :: string
  credit_balance :: string

datatype http_method = GET | POST | PUT | PATCH | DELETE

record 'b HttpRequest =
  rq_url :: string
  rq_method :: http_method
  rq_headers :: "(string \<times> string) list"
  rq_body :: "'b option"

text \<open>
  What the \<^verbatim>\<open>try\<close> block of \<^verbatim>\<open>request\<close> meets: \<^verbatim>\<open>fetch\<close>, \<^verbatim>\<open>JSON.stringify(body)\<close> or
  \<^verbatim>\<open>response.json()\<close> throws a value (an \<^verbatim>\<open>Error\<close> with its message, or something else),
  or the server's JSON arrives, read as an \<^verbatim>\<open>ApiResponse<T>\<close>, together with the headers
  \<^verbatim>\<open>X-Credits-Charged\<close> and \<^verbatim>\<open>X-Credits-Remaining\<close> (\<open>None\<close> is \<^verbatim>\<open>null\<close>).
\<close>

datatype thrown = ErrorObject string | OtherValue

datatype 'a fetch_outcome =
    Throws thrown
  | Responds "'a ApiResponse" "string option" "string option"

text \<open>
  The \<^verbatim>\<open>data\<close> of a push response is not checked (\<^verbatim>\<open>json as ApiResponse<T>\<close>). It is a
  \<^verbatim>\<open>SyncResult\<close>, or some other value: on such a value \<^verbatim>\<open>applySyncResults\<close> runs until a
  property access or a loop header throws a \<^verbatim>\<open>TypeError\<close> (with some message), by when its
  loops have gone through some created pairs and some updated pairs, assigning the
  timestamp they read. \<open>Malformed\<close> holds that timestamp (taken to be a string), those
  created pairs, those updated pairs, and the message.
\<close>

datatype sync_payload =
    WellFormed SyncResult
  | Malformed string "IdPair list" "IdPair list" string

text \<open>
  \<^verbatim>\<open>fs\<close> of the manager is \<open>True\<close> once the module \<^verbatim>\<open>'fs'\<close> has been imported (\<^verbatim>\<open>null\<close>
  before). The disk maps a path to the text of the file there.
\<close>

record LocalStoreManager =
  store :: LocalStore
  storePath :: string
  fs :: bool

record SovereignClient =
  baseUrl :: string
  authToken :: "string option"
  localStore :: LocalStoreManager

type_synonym disk = "string \<rightharpoonup> string"

text \<open>
  The environment of one call: the network (per endpoint, since the payload type
  differs), \<^verbatim>\<open>parseInt\<close>, \<^verbatim>\<open>JSON.stringify\<close> on the manifest entries (the code units of the
  text, or the value it throws, as on a cyclic payload), \<^verbatim>\<open>JSON.stringify\<close> on the store,
  \<^verbatim>\<open>JSON.parse\<close> on the text of a store file (\<open>None\<close> when it throws), whether
  \<^verbatim>\<open>import('fs')\<close>, the write and \<^verbatim>\<open>readFileSync\<close> complete, and the clock.
\<close>

record Env =
  fetchAgent :: "unit HttpRequest \<Rightarrow> Agent fetch_outcome"
  fetchPush :: "SyncManifest HttpRequest \<Rightarrow> sync_payload fetch_outcome"
  parseInt :: "string \<Rightarrow> parsed_int"
  stringifyEntries :: "ManifestEntry list \<Rightarrow> thrown + nat list"
  stringifyStore :: "LocalStore \<Rightarrow> string"
  parseStore :: "string \<Rightarrow> LocalStore option"
  importOk :: bool
  writeOk :: bool
  readOk :: bool
  clock :: string



text \<open>
  \<^verbatim>\<open>save\<close>: everything thrown inside is caught and logged, so a failed import or a failed
  write (\<^verbatim>\<open>JSON.stringify\<close> or \<^verbatim>\<open>writeFileSync\<close> throwing) leaves the disk as it was.
\<close>

definition save :: "Env \<Rightarrow> LocalStoreManager \<Rightarrow> disk \<Rightarrow> LocalStoreManager \<times> disk" where
  "save env m d =
     (if fs m then
        (if writeOk env then (m, d(storePath m \<mapsto> stringifyStore env (store m))) else (m, d))
      else if \<not> importOk env then (m, d)
      else if writeOk env
        then (m\<lparr>fs := True\<rparr>, d(storePath m \<mapsto> stringifyStore env (store m)))
        else (m\<lparr>fs := True\<rparr>, d))"

text \<open>
  \<^verbatim>\<open>request\<close>. \<open>requestInit\<close> is what the call passes to \<^verbatim>\<open>fetch\<close>; \<open>creditsHeader\<close> is
  \<^verbatim>\<open>h ? parseInt(h) : undefined\<close> on a header; \<open>networkError\<close> is the value of the \<^verbatim>\<open>catch\<close>
  block.
\<close>

definition requestInit ::
  "SovereignClient \<Rightarrow> http_method \<Rightarrow> string \<Rightarrow> 'b option \<Rightarrow> 'b HttpRequest" where
  "requestInit c method path body =
     \<lparr> rq_url = baseUrl c @ path,
       rq_method = method,
       rq_headers =
         (case authToken c of
            None \<Rightarrow> [(''Content-Type'', ''application/json'')]
          | Some token \<Rightarrow>
              if token = [] then [(''Content-Type'', ''application/json'')]
              else [(''Content-Type'', ''application/json''),
                    (''Authorization'', ''Bearer '' @ token)]),
       rq_body = body \<rparr>"

definition creditsHeader :: "(string \<Rightarrow> parsed_int) \<Rightarrow> string option \<Rightarrow> parsed_int option" where
  "creditsHeader parse h =
     (case h of None \<Rightarrow> None | Some v \<Rightarrow> if v = [] then None else Some (parse v))"

definition networkError :: "thrown \<Rightarrow> 'a ApiResponse" where
  "networkError e =
     \<lparr> success = False, data = None,
       error = Some \<lparr> code = ''NETWORK_ERROR'',
                      message = (case e of ErrorObject m \<Rightarrow> m
                                 | OtherValue \<Rightarrow> ''Unknown error''),
                      required = None, endpoint = None \<rparr>,
       headers = None \<rparr>"

definition request ::
  "('b HttpRequest \<Rightarrow> 'a fetch_outcome) \<Rightarrow> (string \<Rightarrow> parsed_int) \<Rightarrow> SovereignClient \<Rightarrow>
     http_method \<Rightarrow> string \<Rightarrow> 'b option \<Rightarrow> 'a ApiResponse" where
  "request fetch parse c method path body =
     (case fetch (requestInit c method path body) of
        Responds json charged remaining \<Rightarrow>
          json\<lparr> headers :=
            Some \<lparr> creditsCharged = creditsHeader parse charged,
                   creditsRemaining = creditsHeader parse remaining \<rparr> \<rparr>
      | Throws e \<Rightarrow> networkError e)"






section \<open>Notions for the proofs\<close>

text \<open>
  The two assignments of \<^verbatim>\<open>applySyncResults\<close> as functions on one product, whether the
  product at an index is the one \<^verbatim>\<open>find\<close> returns for its \<^verbatim>\<open>local_id\<close>, the effect of a
  whole loop on a product that \<^verbatim>\<open>find\<close> returns, and the ids a result names in its
  \<^verbatim>\<open>created\<close> and \<^verbatim>\<open>updated\<close> lists.
\<close>

definition setCreated :: "string \<Rightarrow> IdPair \<Rightarrow> LocalProduct \<Rightarrow> LocalProduct" where
  "setCreated ts c p = p\<lparr>remote_id := Some (pr_remote_id c), status := Synced, synced_at := Some ts\<rparr>"

definition setUpdated :: "string \<Rightarrow> LocalProduct \<Rightarrow> LocalProduct" where
  "setUpdated ts p = p\<lparr>status := Synced, synced_at := Some ts\<rparr>"

definition isFirst :: "LocalProduct list \<Rightarrow> nat \<Rightarrow> bool" where
  "isFirst ps i = (findIndex (\<lambda>p. local_id p = local_id (ps ! i)) ps = Some i)"

fun createdOn :: "string \<Rightarrow> IdPair list \<Rightarrow> LocalProduct \<Rightarrow> LocalProduct" where
  "createdOn ts [] p = p"
| "createdOn ts (c # cs) p =
     createdOn ts cs (if local_id p = pr_local_id c then setCreated ts c p else p)"

fun updatedOn :: "string \<Rightarrow> IdPair list \<Rightarrow> LocalProduct \<Rightarrow> LocalProduct" where
  "updatedOn ts [] p = p"
| "updatedOn ts (u # us) p =
     updatedOn ts us (if local_id p = pr_local_id u then setUpdated ts p else p)"

fun lastRemote :: "IdPair list \<Rightarrow> string \<Rightarrow> string option" where
  "lastRemote [] l = None"
| "lastRemote (c # cs) l =
     (case lastRemote cs l of
        Some r \<Rightarrow> Some r
      | None \<Rightarrow> if pr_local_id c = l then Some (pr_remote_id c) else None)"

definition syncedOn :: "SyncResult \<Rightarrow> LocalProduct \<Rightarrow> LocalProduct" where
  "syncedOn r p =
     updatedOn (timestamp r) (updated (results r))
       (createdOn (timestamp r) (created (results r)) p)"


section \<open>Conditions on sequences of operations\<close>

text \<open>
  A product satisfies the lifecycle rule when it has a \<^verbatim>\<open>remote_id\<close> (as the code tests
  it) and its status is \<^verbatim>\<open>synced\<close> or \<^verbatim>\<open>modified\<close>, or has none and its status is \<^verbatim>\<open>draft\<close>
  or \<^verbatim>\<open>ready\<close>.
\<close>

definition lifecycleOk :: "LocalProduct \<Rightarrow> bool" where
  "lifecycleOk p =
     (if truthy (remote_id p) then status p \<noteq> Draft \<and> status p \<noteq> Ready
      else status p \<noteq> Synced \<and> status p \<noteq> Modified)"

text \<open>
  \<open>foundSynced ps u\<close>: the product that \<^verbatim>\<open>find\<close> returns in \<open>ps\<close> for the updated pair \<open>u\<close>,
  if there is one, has a \<^verbatim>\<open>remote_id\<close>.
\<close>

definition foundSynced :: "LocalProduct list \<Rightarrow> IdPair \<Rightarrow> bool" where
  "foundSynced ps u =
     (case find (\<lambda>p. local_id p = pr_local_id u) ps of
        None \<Rightarrow> True
      | Some p \<Rightarrow> truthy (remote_id p))"

text \<open>
  The operations under which the lifecycle rule is kept: \<^verbatim>\<open>createProduct\<close> and
  \<^verbatim>\<open>updateProduct\<close> with no \<^verbatim>\<open>remote_id\<close> key in their argument; \<^verbatim>\<open>applySyncResults\<close> with
  a result whose created pairs carry a non-empty \<^verbatim>\<open>remote_id\<close> and whose updated pairs
  name products that are absent or have a \<^verbatim>\<open>remote_id\<close> once the created pairs are
  applied.
\<close>

fun lifecycleGuard :: "LocalStore \<Rightarrow> store_op \<Rightarrow> bool" where
  "lifecycleGuard s (OpCreate product now_ms rnd t_created t_updated) =
     (n_remote_id product = None)"
| "lifecycleGuard s (OpUpdate localId updates now) = (u_remote_id updates = None)"
| "lifecycleGuard s (OpMarkReady localId now) = True"
| "lifecycleGuard s (OpDelete localId) = True"
| "lifecycleGuard s (OpApply r) =
     (list_all (\<lambda>c. pr_remote_id c \<noteq> []) (created (results r)) \<and>
      list_all
        (foundSynced (createdLoop (timestamp r) (created (results r)) (products s)))
        (updated (results r)))"

text \<open>
  The operations under which identifiers are kept: \<^verbatim>\<open>createProduct\<close> when \<^verbatim>\<open>generateId\<close>
  returns an id that no product of the store has; \<^verbatim>\<open>updateProduct\<close> with no \<^verbatim>\<open>remote_id\<close>
  key in its argument; \<^verbatim>\<open>applySyncResults\<close> with a result whose created pairs name
  products that are absent, have no \<^verbatim>\<open>remote_id\<close>, or have the \<^verbatim>\<open>remote_id\<close> of the pair.
\<close>

fun idsGuard :: "LocalStore \<Rightarrow> store_op \<Rightarrow> bool" where
  "idsGuard s (OpCreate product now_ms rnd t_created t_updated) =
     (generateId now_ms rnd \<notin> local_id ` set (products s))"
| "idsGuard s (OpUpdate localId updates now) = (u_remote_id updates = None)"
| "idsGuard s (OpMarkReady localId now) = True"
| "idsGuard s (OpDelete localId) = True"
| "idsGuard s (OpApply r) =
     list_all
       (\<lambda>c. case find (\<lambda>p. local_id p = pr_local_id c) (products s) of
              None \<Rightarrow> True
            | Some p \<Rightarrow> remote_id p = None \<or> remote_id p = Some (pr_remote_id c))
       (created (results r))"

text \<open>Every operation of a sequence meets the condition in the store it is applied to.\<close>

fun guarded :: "(LocalStore \<Rightarrow> store_op \<Rightarrow> bool) \<Rightarrow> LocalStore \<Rightarrow> store_op list \<Rightarrow> bool" where
  "guarded G s [] = True"
| "guarded G s (op # ops) = (G s op \<and> guarded G (step s op) ops)"


section \<open>Example data\<close>

definition exampleProduct :: NewProduct where
  "exampleProduct =
     \<lparr> n_remote_id = None, n_name = ''My First Product'',
       n_description = ''An amazing resource for agents'', n_category_id = ''prompt-packs'',
       n_price = 500, n_delivery_type = Download,
       n_delivery_payload = Some (JObj [(''url'', JStr ''https://example.com/product.json'')]),
       n_content_hash = None, n_file_size_bytes = None, n_synced_at = None \<rparr>"

text \<open>
  The store after \<^verbatim>\<open>createProduct\<close> on the default store, with \<^verbatim>\<open>Date.now()\<close> =
  1700000000000 and \<^verbatim>\<open>Math.random().toString(36)\<close> = \<^verbatim>\<open>"0.4fzyo82mvyr"\<close>.
\<close>

definition draftStore :: LocalStore where
  "draftStore =
     snd (createProduct getDefaultStore exampleProduct 1700000000000 ''0.4fzyo82mvyr''
            ''2024-01-01T00:00:00.000Z'' ''2024-01-01T00:00:00.000Z'')"

text \<open>Products in each status, as a store file may hold them.\<close>

definition productIn :: "string \<Rightarrow> string option \<Rightarrow> product_status \<Rightarrow> LocalProduct" where
  "productIn localId remoteId st =
     \<lparr> local_id = localId, remote_id = remoteId, name = ''Prompt pack'',
       description = ''Twenty prompts'', category_id = ''prompt-packs'', price = 999,
       delivery_type = Download, delivery_payload = None, content_hash = None,
       file_size_bytes = None, status = st,
       created_at = ''2024-01-01T00:00:00.000Z'', updated_at = ''2024-01-01T00:00:00.000Z'',
       synced_at = (if st = Synced \<or> st = Modified then Some ''2024-01-02T00:00:00.000Z''
                    else None) \<rparr>"

definition storeOf :: "LocalProduct list \<Rightarrow> LocalStore" where
  "storeOf ps = getDefaultStore\<lparr>products := ps\<rparr>"



definition fourStore :: LocalStore where
  "fourStore =
     storeOf [productIn ''local_d'' None Draft, productIn ''local_a'' None Ready,
              productIn ''local_s'' (Some ''r3'') Synced,
              productIn ''local_b'' (Some ''r2'') Modified]"

text \<open>
  The end-to-end scenario of the specification: create a product, mark it ready, apply a
  result that creates it remotely as \<^verbatim>\<open>r1\<close>, update its price to 999.
\<close>

definition createResult :: SyncResult where
  "createResult =
     \<lparr> sync_id = ''sync_1'', timestamp = ''2024-01-05T00:00:00.000Z'',
       results = \<lparr> created = [\<lparr> pr_local_id = ''local_loyw3v284fzyo82mv'',
                                 pr_remote_id = ''r1'' \<rparr>],
                   updated = [], deleted = [], errors = [] \<rparr> \<rparr>"

definition updateOnlyResult :: SyncResult where
  "updateOnlyResult =
     \<lparr> sync_id = ''sync_1'', timestamp = ''2024-01-05T00:00:00.000Z'',
       results = \<lparr> created = [],
                   updated = [\<lparr> pr_local_id = ''local_loyw3v284fzyo82mv'',
                                 pr_remote_id = ''r1'' \<rparr>],
                   deleted = [], errors = [] \<rparr> \<rparr>"

definition opCreateExample :: store_op where
  "opCreateExample =
     OpCreate exampleProduct 1700000000000 ''0.4fzyo82mvyr''
       ''2024-01-01T00:00:00.000Z'' ''2024-01-01T00:00:00.000Z''"

definition scenarioOps :: "store_op list" where
  "scenarioOps =
     [opCreateExample,
      OpMarkReady ''local_loyw3v284fzyo82mv'' ''2024-01-02T00:00:00.000Z'',
      OpApply createResult,
      OpUpdate ''local_loyw3v284fzyo82mv'' (noUpdates\<lparr>u_price := Some 999\<rparr>)
        ''2024-01-06T00:00:00.000Z'']"







section \<open>Properties\<close>

lemma findIndex_None: "findIndex P xs = None \<longleftrightarrow> (\<forall>x \<in> set xs. \<not> P x)"
  by (induction xs) auto

lemma findIndex_Some:
  "findIndex P xs = Some i \<Longrightarrow> i < length xs \<and> P (xs ! i) \<and> (\<forall>j < i. \<not> P (xs ! j))"
proof (induction xs arbitrary: i)
  case Nil
  then show ?case by simp
next
  case (Cons x xs)
  show ?case
  proof (cases "P x")
    case True
    with Cons.prems show ?thesis by simp
  next
    case False
    with Cons.prems obtain k where k: "findIndex P xs = Some k" "i = Suc k"
      by auto
    from Cons.IH [OF k(1)] False k(2) show ?thesis
      by (auto simp: nth_Cons split: nat.splits)
  qed
qed

lemma findIndex_find:
  "find P xs = (case findIndex P xs of None \<Rightarrow> None | Some i \<Rightarrow> Some (xs ! i))"
  by (induction xs) (auto split: option.splits)

lemma findIndex_cong_map:
  "map f xs = map f ys \<Longrightarrow> findIndex (\<lambda>p. f p = l) xs = findIndex (\<lambda>p. f p = l) ys"
proof (induction xs arbitrary: ys)
  case Nil
  then show ?case by simp
next
  case (Cons x xs)
  then obtain y ys' where "ys = y # ys'" by (cases ys) auto
  with Cons show ?case by auto
qed

lemma generateId_example:
  "generateId 1700000000000 ''0.4fzyo82mvyr'' = ''local_loyw3v284fzyo82mv''"
  by (simp add: generateId_def digitChar_def toStringRadix.simps)

lemma draftStore_products:
  "products draftStore =
     [\<lparr> local_id = ''local_loyw3v284fzyo82mv'', remote_id = None,
        name = ''My First Product'', description = ''An amazing resource for agents'',
        category_id = ''prompt-packs'', price = 500, delivery_type = Download,
        delivery_payload = Some (JObj [(''url'', JStr ''https://example.com/product.json'')]),
        content_hash = None, file_size_bytes = None, status = Draft,
        created_at = ''2024-01-01T00:00:00.000Z'', updated_at = ''2024-01-01T00:00:00.000Z'',
        synced_at = None \<rparr>]"
  by (simp add: draftStore_def createProduct_def getDefaultStore_def exampleProduct_def
      generateId_example Let_def)

subsection \<open>markReady\<close>

text \<open>\<^verbatim>\<open>markReady\<close> returns \<^verbatim>\<open>null\<close> exactly when no product of the store has the id.\<close>

lemma markReady_null:
  "fst (markReady s localId now) = None \<longleftrightarrow> localId \<notin> local_id ` set (products s)"
proof (cases "findIndex (\<lambda>p. local_id p = localId) (products s)")
  case None
  then have "localId \<notin> local_id ` set (products s)"
    by (auto simp: findIndex_None)
  with None show ?thesis
    by (simp add: markReady_def updateProduct_def)
next
  case (Some i)
  from findIndex_Some [OF Some] have "products s ! i \<in> set (products s)"
    and "local_id (products s ! i) = localId"
    by simp_all
  then have "localId \<in> local_id ` set (products s)" by force
  with Some show ?thesis
    by (simp add: markReady_def updateProduct_def Let_def)
qed

text \<open>
  Claim C1 says that \<^verbatim>\<open>markReady(local_id)\<close> moves an existing product to status
  \<^verbatim>\<open>ready\<close>, in particular a \<^verbatim>\<open>draft\<close> product with no \<^verbatim>\<open>remote_id\<close>. The code does not:
  \<^verbatim>\<open>markReady\<close> passes \<^verbatim>\<open>{ status: 'ready' }\<close> to \<^verbatim>\<open>updateProduct\<close>, whose object literal sets
  \<^verbatim>\<open>status\<close> after the spread of the updates. On the store that \<^verbatim>\<open>createProduct\<close> leaves,
  \<^verbatim>\<open>markReady\<close> on the new product returns it with status \<^verbatim>\<open>draft\<close> and stores it so; only
  \<^verbatim>\<open>updated_at\<close> changes, and the manifest generated next has no entry for the product.
\<close>

theorem markReady_leaves_draft:
  "map_option (\<lambda>p. (status p, remote_id p, updated_at p))
     (fst (markReady draftStore ''local_loyw3v284fzyo82mv'' ''2024-01-02T00:00:00.000Z''))
     = Some (Draft, None, ''2024-01-02T00:00:00.000Z'')
   \<and> map (\<lambda>p. (local_id p, status p))
       (products (snd (markReady draftStore ''local_loyw3v284fzyo82mv''
                         ''2024-01-02T00:00:00.000Z'')))
     = [(''local_loyw3v284fzyo82mv'', Draft)]
   \<and> m_products
       (generateSyncManifest (\<lambda>es. [])
          (snd (markReady draftStore ''local_loyw3v284fzyo82mv'' ''2024-01-02T00:00:00.000Z''))
          ''agent_1'' ''2024-01-03T00:00:00.000Z'')
     = []"
  by (simp add: markReady_def updateProduct_def draftStore_products truthy_def noUpdates_def
      spread_def Let_def generateSyncManifest_def)

subsection \<open>updateProduct\<close>

text \<open>
  Claim C9: \<^verbatim>\<open>updateProduct(local_id, partialFields)\<close> on an existing product ignores a
  \<^verbatim>\<open>status\<close> in \<^verbatim>\<open>partialFields\<close>. The status of the product it returns and stores is
  \<^verbatim>\<open>modified\<close> when the existing record has a \<^verbatim>\<open>remote_id\<close> (as the code tests it,
  \<^verbatim>\<open>existing.remote_id ? ...\<close>: present and not the empty string) and the existing
  record's status otherwise; the call with any other \<^verbatim>\<open>status\<close> in the updates (\<open>st\<close>,
  also none) gives the same product and the same store.
\<close>

theorem updateProduct_status_ignored:
  assumes "getProduct s localId = Some existing"
  shows "\<exists>upd s'. updateProduct s localId updates now = (Some upd, s')
           \<and> status upd = (if truthy (remote_id existing) then Modified else status existing)
           \<and> getProduct s' localId = Some upd
           \<and> updateProduct s localId (updates\<lparr>u_status := st\<rparr>) now = (Some upd, s')"
proof -
  from assms obtain i where i: "findIndex (\<lambda>p. local_id p = localId) (products s) = Some i"
    and ex: "existing = products s ! i"
    by (auto simp: getProduct_def findIndex_find split: option.splits)
  from findIndex_Some [OF i] have len: "i < length (products s)"
    and lid: "local_id (products s ! i) = localId"
    by auto
  obtain upd s' where u: "updateProduct s localId updates now = (Some upd, s')"
    using i by (auto simp: updateProduct_def Let_def)
  have st: "status upd = (if truthy (remote_id existing) then Modified else status existing)"
    using u i ex by (auto simp: updateProduct_def Let_def)
  have lid': "local_id upd = localId"
    using u i lid by (auto simp: updateProduct_def Let_def)
  have ps: "products s' = (products s)[i := upd]"
    using u i by (auto simp: updateProduct_def Let_def)
  have "map local_id (products s') = map local_id (products s)"
    using ps lid lid' len by (simp add: map_update list_update_same_conv)
  then have "findIndex (\<lambda>p. local_id p = localId) (products s') = Some i"
    using i findIndex_cong_map [of local_id "products s'" "products s" localId] by simp
  then have g: "getProduct s' localId = Some upd"
    using ps len by (simp add: getProduct_def findIndex_find)
  have "updateProduct s localId (updates\<lparr>u_status := st\<rparr>) now
          = updateProduct s localId updates now"
    by (simp add: updateProduct_def Let_def split: option.splits)
  with u st g show ?thesis by simp
qed

theorem updateProduct_status_ignored_witness:
  "getProduct (storeOf [productIn ''local_a'' (Some ''r1'') Synced]) ''local_a''
     = Some (productIn ''local_a'' (Some ''r1'') Synced)
   \<and> (\<exists>upd s'. updateProduct (storeOf [productIn ''local_a'' (Some ''r1'') Synced]) ''local_a''
                  (noUpdates\<lparr>u_price := Some 500, u_status := Some Draft\<rparr>)
                  ''2024-01-03T00:00:00.000Z'' = (Some upd, s')
         \<and> status upd = Modified)"
proof -
  have h: "getProduct (storeOf [productIn ''local_a'' (Some ''r1'') Synced]) ''local_a''
             = Some (productIn ''local_a'' (Some ''r1'') Synced)"
    by (simp add: getProduct_def storeOf_def productIn_def)
  have t: "truthy (remote_id (productIn ''local_a'' (Some ''r1'') Synced))"
    by (simp add: truthy_def productIn_def)
  from updateProduct_status_ignored [OF h,
      of "noUpdates\<lparr>u_price := Some 500, u_status := Some Draft\<rparr>"
         "''2024-01-03T00:00:00.000Z''" "Some Draft"] h t
  show ?thesis by auto
qed

subsection \<open>The loops of applySyncResults, product by product\<close>

text \<open>
  Neither loop changes a \<^verbatim>\<open>local_id\<close>, so \<^verbatim>\<open>find\<close> returns the product at the same index
  throughout. A product that \<^verbatim>\<open>find\<close> returns for its id receives the assignments of all
  pairs that name it; every other product is left as it is.
\<close>

lemma applyCreated_ids [simp]: "map local_id (applyCreated ts c ps) = map local_id ps"
  by (auto simp: applyCreated_def map_update list_update_same_conv dest: findIndex_Some
      split: option.splits)

lemma applyUpdated_ids [simp]: "map local_id (applyUpdated ts u ps) = map local_id ps"
  by (auto simp: applyUpdated_def map_update list_update_same_conv dest: findIndex_Some
      split: option.splits)

lemma createdLoop_ids [simp]: "map local_id (createdLoop ts cs ps) = map local_id ps"
  by (induction cs arbitrary: ps) auto

lemma updatedLoop_ids [simp]: "map local_id (updatedLoop ts us ps) = map local_id ps"
  by (induction us arbitrary: ps) auto

lemma ids_length: "map local_id xs = map local_id ys \<Longrightarrow> length xs = length ys"
  by (rule map_eq_imp_length_eq)

lemma ids_nth: "map local_id xs = map local_id ys \<Longrightarrow> i < length ys \<Longrightarrow> local_id (xs ! i) = local_id (ys ! i)"
  by (metis length_map nth_map)

lemma isFirst_cong:
  assumes "map local_id xs = map local_id ys" "i < length ys"
  shows "isFirst xs i = isFirst ys i"
  using assms findIndex_cong_map [OF assms(1)] ids_nth [OF assms]
  by (simp add: isFirst_def)

lemma applyCreated_nth:
  assumes "i < length ps"
  shows "applyCreated ts c ps ! i =
           (if isFirst ps i \<and> local_id (ps ! i) = pr_local_id c then setCreated ts c (ps ! i)
            else ps ! i)"
proof (cases "findIndex (\<lambda>p. local_id p = pr_local_id c) ps")
  case None
  then have "local_id (ps ! i) \<noteq> pr_local_id c"
    using assms by (auto simp: findIndex_None)
  with None show ?thesis by (simp add: applyCreated_def)
next
  case (Some j)
  from findIndex_Some [OF Some] have j: "j < length ps" "local_id (ps ! j) = pr_local_id c" by auto
  have "i = j \<longleftrightarrow> isFirst ps i \<and> local_id (ps ! i) = pr_local_id c"
    using Some j by (auto simp: isFirst_def)
  then show ?thesis using Some assms j
    by (auto simp: applyCreated_def setCreated_def)
qed

lemma applyUpdated_nth:
  assumes "i < length ps"
  shows "applyUpdated ts u ps ! i =
           (if isFirst ps i \<and> local_id (ps ! i) = pr_local_id u then setUpdated ts (ps ! i)
            else ps ! i)"
proof (cases "findIndex (\<lambda>p. local_id p = pr_local_id u) ps")
  case None
  then have "local_id (ps ! i) \<noteq> pr_local_id u"
    using assms by (auto simp: findIndex_None)
  with None show ?thesis by (simp add: applyUpdated_def)
next
  case (Some j)
  from findIndex_Some [OF Some] have j: "j < length ps" "local_id (ps ! j) = pr_local_id u" by auto
  have "i = j \<longleftrightarrow> isFirst ps i \<and> local_id (ps ! i) = pr_local_id u"
    using Some j by (auto simp: isFirst_def)
  then show ?thesis using Some assms j
    by (auto simp: applyUpdated_def setUpdated_def)
qed

lemma createdOn_id [simp]: "local_id (createdOn ts cs p) = local_id p"
  by (induction cs arbitrary: p) (auto simp: setCreated_def)

lemma updatedOn_id [simp]: "local_id (updatedOn ts us p) = local_id p"
  by (induction us arbitrary: p) (auto simp: setUpdated_def)

lemma createdLoop_nth:
  "i < length ps \<Longrightarrow>
   createdLoop ts cs ps ! i = (if isFirst ps i then createdOn ts cs (ps ! i) else ps ! i)"
proof (induction cs arbitrary: ps)
  case Nil
  then show ?case by simp
next
  case (Cons c cs)
  have len: "i < length (applyCreated ts c ps)"
    using Cons.prems ids_length [OF applyCreated_ids, of ts c ps] by simp
  have f: "isFirst (applyCreated ts c ps) i = isFirst ps i"
    using isFirst_cong [OF applyCreated_ids Cons.prems] .
  show ?case
    using Cons.IH [OF len] f applyCreated_nth [OF Cons.prems, of ts c]
    by simp
qed

lemma updatedLoop_nth:
  "i < length ps \<Longrightarrow>
   updatedLoop ts us ps ! i = (if isFirst ps i then updatedOn ts us (ps ! i) else ps ! i)"
proof (induction us arbitrary: ps)
  case Nil
  then show ?case by simp
next
  case (Cons u us)
  have len: "i < length (applyUpdated ts u ps)"
    using Cons.prems ids_length [OF applyUpdated_ids, of ts u ps] by simp
  have f: "isFirst (applyUpdated ts u ps) i = isFirst ps i"
    using isFirst_cong [OF applyUpdated_ids Cons.prems] .
  show ?case
    using Cons.IH [OF len] f applyUpdated_nth [OF Cons.prems, of ts u]
    by simp
qed


lemma createdOn_char:
  "createdOn ts cs p =
     (case lastRemote cs (local_id p) of
        None \<Rightarrow> p
      | Some r \<Rightarrow> p\<lparr>remote_id := Some r, status := Synced, synced_at := Some ts\<rparr>)"
  by (induction cs arbitrary: p) (auto simp: setCreated_def split: option.splits)

lemma updatedOn_char:
  "updatedOn ts us p =
     (if local_id p \<in> pr_local_id ` set us then setUpdated ts p else p)"
  by (induction us arbitrary: p) (auto simp: setUpdated_def)

lemma syncedOn_id [simp]: "local_id (syncedOn r p) = local_id p"
  by (simp add: syncedOn_def)

lemma syncedOn_idem: "syncedOn r (syncedOn r p) = syncedOn r p"
  by (simp add: syncedOn_def createdOn_char updatedOn_char setUpdated_def split: option.splits)

lemma applySyncResults_length [simp]:
  "length (products (applySyncResults s r)) = length (products s)"
  using ids_length [of "products (applySyncResults s r)" "products s"]
  by (simp add: applySyncResults_def)

lemma applySyncResults_ids [simp]:
  "map local_id (products (applySyncResults s r)) = map local_id (products s)"
  by (simp add: applySyncResults_def)

lemma applySyncResults_nth:
  assumes "i < length (products s)"
  shows "products (applySyncResults s r) ! i =
           (if isFirst (products s) i then syncedOn r (products s ! i) else products s ! i)"
proof -
  let ?ts = "timestamp r"
  let ?ps1 = "createdLoop ?ts (created (results r)) (products s)"
  have len1: "i < length ?ps1"
    using assms ids_length [OF createdLoop_ids, of ?ts "created (results r)" "products s"] by simp
  have f1: "isFirst ?ps1 i = isFirst (products s) i"
    using isFirst_cong [OF createdLoop_ids assms] .
  show ?thesis
    using updatedLoop_nth [OF len1, of ?ts "updated (results r)"] f1
      createdLoop_nth [OF assms, of ?ts "created (results r)"]
    by (simp add: applySyncResults_def syncedOn_def)
qed

lemma applySyncResults_products_idem:
  "products (applySyncResults (applySyncResults s r) r) = products (applySyncResults s r)"
proof (rule nth_equalityI)
  show "length (products (applySyncResults (applySyncResults s r) r))
          = length (products (applySyncResults s r))"
    by simp
next
  fix i
  assume "i < length (products (applySyncResults (applySyncResults s r) r))"
  then have i: "i < length (products s)" by simp
  then have i': "i < length (products (applySyncResults s r))" by simp
  have f: "isFirst (products (applySyncResults s r)) i = isFirst (products s) i"
    using isFirst_cong [OF applySyncResults_ids i] .
  show "products (applySyncResults (applySyncResults s r) r) ! i
          = products (applySyncResults s r) ! i"
    using applySyncResults_nth [OF i'] applySyncResults_nth [OF i] f
    by (simp add: syncedOn_idem)
qed

lemma isFirst_distinct:
  assumes "distinct (map local_id ps)" "i < length ps"
  shows "isFirst ps i"
proof -
  have "findIndex (\<lambda>p. local_id p = local_id (ps ! i)) ps \<noteq> None"
    using assms(2) by (auto simp: findIndex_None)
  then obtain j where j: "findIndex (\<lambda>p. local_id p = local_id (ps ! i)) ps = Some j" by auto
  from findIndex_Some [OF j] have "j < length ps" "local_id (ps ! j) = local_id (ps ! i)" by auto
  with assms have "j = i"
    by (metis distinct_conv_nth length_map nth_map)
  with j show ?thesis by (simp add: isFirst_def)
qed

lemma applySyncResults_distinct:
  assumes "distinct (map local_id (products s))"
  shows "products (applySyncResults s r) = map (syncedOn r) (products s)"
proof (rule nth_equalityI)
  show "length (products (applySyncResults s r)) = length (map (syncedOn r) (products s))"
    by simp
next
  fix i
  assume "i < length (products (applySyncResults s r))"
  then have i: "i < length (products s)" by simp
  show "products (applySyncResults s r) ! i = map (syncedOn r) (products s) ! i"
    using applySyncResults_nth [OF i] isFirst_distinct [OF assms i] i by simp
qed



subsection \<open>applySyncResults\<close>

text \<open>
  Claim C10: \<^verbatim>\<open>applySyncResults\<close> never removes a product: the store holds the same
  \<^verbatim>\<open>local_id\<close>s in the same order afterwards. The \<^verbatim>\<open>deleted\<close> list (and the \<^verbatim>\<open>errors\<close> list)
  of the result has no effect: with any other lists \<open>dl\<close> and \<open>el\<close> in their place the
  call leaves the same store. The call appends one \<^verbatim>\<open>sync_history\<close> entry, whose
  \<^verbatim>\<open>products_synced\<close> is the number of created pairs plus the number of updated pairs.
\<close>

theorem applySyncResults_keeps_products:
  "map local_id (products (applySyncResults s r)) = map local_id (products s)
   \<and> applySyncResults s (r\<lparr>results := (results r)\<lparr>deleted := dl, errors := el\<rparr>\<rparr>)
       = applySyncResults s r
   \<and> sync_history (applySyncResults s r)
       = sync_history s @
           [\<lparr> h_id = sync_id r, h_direction = Push, h_timestamp = timestamp r,
              h_products_synced =
                length (created (results r)) + length (updated (results r)) \<rparr>]"
  by (simp add: applySyncResults_def)

text \<open>
  Claim C5: applying the same result twice leaves the store's products as applying it
  once does, so each listed product's \<^verbatim>\<open>status\<close>, \<^verbatim>\<open>remote_id\<close> and \<^verbatim>\<open>synced_at\<close> are
  identical after the first and after the second application (as is every other field
  of every product), and so are \<^verbatim>\<open>last_sync\<close>, \<^verbatim>\<open>version\<close> and \<^verbatim>\<open>profile\<close>. The log
  \<^verbatim>\<open>sync_history\<close> records each application: the second appends one more entry.
\<close>

theorem applySyncResults_twice:
  "products (applySyncResults (applySyncResults s r) r) = products (applySyncResults s r)
   \<and> last_sync (applySyncResults (applySyncResults s r) r) = last_sync (applySyncResults s r)
   \<and> version (applySyncResults (applySyncResults s r) r) = version (applySyncResults s r)
   \<and> profile (applySyncResults (applySyncResults s r) r) = profile (applySyncResults s r)
   \<and> sync_history (applySyncResults (applySyncResults s r) r)
       = sync_history (applySyncResults s r) @
           [\<lparr> h_id = sync_id r, h_direction = Push, h_timestamp = timestamp r,
              h_products_synced =
                length (created (results r)) + length (updated (results r)) \<rparr>]"
proof -
  have "products (applySyncResults (applySyncResults s r) r) = products (applySyncResults s r)"
    by (rule applySyncResults_products_idem)
  moreover have "last_sync (applySyncResults (applySyncResults s r) r) = last_sync (applySyncResults s r)"
    by (simp add: applySyncResults_def)
  moreover have "version (applySyncResults (applySyncResults s r) r) = version (applySyncResults s r)"
    by (simp add: applySyncResults_def)
  moreover have "profile (applySyncResults (applySyncResults s r) r) = profile (applySyncResults s r)"
    by (simp add: applySyncResults_def)
  moreover have "sync_history (applySyncResults (applySyncResults s r) r)
       = sync_history (applySyncResults s r) @
           [\<lparr> h_id = sync_id r, h_direction = Push, h_timestamp = timestamp r,
              h_products_synced =
                length (created (results r)) + length (updated (results r)) \<rparr>]"
    by (simp add: applySyncResults_def)
  ultimately show ?thesis by simp
qed




subsection \<open>generateSyncManifest\<close>

text \<open>
  Claim C3: the manifest has one entry for every product whose status is not \<^verbatim>\<open>draft\<close>,
  in the order of the store, and none for a \<^verbatim>\<open>draft\<close> product. The entry's action is
  \<^verbatim>\<open>create\<close> exactly when the product has no \<^verbatim>\<open>remote_id\<close> and status \<^verbatim>\<open>ready\<close>, \<^verbatim>\<open>update\<close>
  exactly when it has a \<^verbatim>\<open>remote_id\<close> and status \<^verbatim>\<open>modified\<close>, and \<^verbatim>\<open>unchanged\<close> otherwise
  (a \<^verbatim>\<open>remote_id\<close> counts as the code tests it, \<^verbatim>\<open>!p.remote_id\<close>: present and not the empty
  string). The field snapshot is attached exactly for \<^verbatim>\<open>create\<close> and \<^verbatim>\<open>update\<close>.
\<close>

theorem generateSyncManifest_actions:
  "list_all2
     (\<lambda>p e. e_local_id e = local_id p \<and> e_remote_id e = remote_id p
             \<and> e_local_updated_at e = updated_at p
             \<and> (e_action e = Create) = (\<not> truthy (remote_id p) \<and> status p = Ready)
             \<and> (e_action e = Update) = (truthy (remote_id p) \<and> status p = Modified)
             \<and> (e_action e = Unchanged)
                 = (\<not> (\<not> truthy (remote_id p) \<and> status p = Ready)
                    \<and> \<not> (truthy (remote_id p) \<and> status p = Modified))
             \<and> e_data e =
                 (if e_action e = Create \<or> e_action e = Update
                  then Some \<lparr> d_name = name p, d_description = description p,
                              d_category_id = category_id p, d_price = price p,
                              d_delivery_type = delivery_type p,
                              d_delivery_payload = delivery_payload p,
                              d_content_hash = content_hash p,
                              d_file_size_bytes = file_size_bytes p \<rparr>
                  else None))
     (filter (\<lambda>p. status p \<noteq> Draft) (products s))
     (m_products (generateSyncManifest stringify s agentId now))"
  by (simp add: generateSyncManifest_def Let_def list_all2_map2 list.rel_refl_strong manifestEntry_def)

theorem generateSyncManifest_actions_witness:
  "map (\<lambda>e. (e_local_id e, e_action e, map_option d_price (e_data e)))
     (m_products (generateSyncManifest (\<lambda>es. []) fourStore ''agent_1'' ''2024-01-06T00:00:00.000Z''))
   = [(''local_a'', Create, Some 999), (''local_s'', Unchanged, None), (''local_b'', Update, Some 999)]"
proof -
  have f: "filter (\<lambda>p. status p \<noteq> Draft) (products fourStore)
             = [productIn ''local_a'' None Ready, productIn ''local_s'' (Some ''r3'') Synced,
                productIn ''local_b'' (Some ''r2'') Modified]"
    by (simp add: fourStore_def storeOf_def productIn_def)
  show ?thesis
    using generateSyncManifest_actions [of fourStore "\<lambda>es. []" "''agent_1''" "''2024-01-06T00:00:00.000Z''"]
    unfolding f
    by (auto simp: list_all2_Cons1 productIn_def truthy_def)
qed

subsection \<open>Sequences of operations\<close>

lemma run_append: "run s (xs @ ys) = run (run s xs) ys"
  by (induction xs arbitrary: s) auto

lemma guarded_append: "guarded G s (xs @ ys) = (guarded G s xs \<and> guarded G (run s xs) ys)"
  by (induction xs arbitrary: s) auto

subsection \<open>Lifecycle rule\<close>

lemma list_all_update: "list_all P xs \<Longrightarrow> P y \<Longrightarrow> list_all P (xs[i := y])"
  by (induction xs arbitrary: i) (auto split: nat.splits)

lemma list_all_splice1: "list_all P xs \<Longrightarrow> list_all P (splice1 i xs)"
  by (auto simp: splice1_def list_all_iff dest: in_set_takeD in_set_dropD)

lemma updateProduct_lifecycle:
  assumes "list_all lifecycleOk (products s)" "u_remote_id updates = None"
  shows "list_all lifecycleOk (products (snd (updateProduct s localId updates now)))"
proof (cases "findIndex (\<lambda>p. local_id p = localId) (products s)")
  case None
  with assms show ?thesis by (simp add: updateProduct_def)
next
  case (Some i)
  from findIndex_Some [OF Some] have "i < length (products s)" by simp
  with assms(1) have ok: "lifecycleOk (products s ! i)"
    by (simp add: list_all_length)
  obtain upd where upd: "fst (updateProduct s localId updates now) = Some upd"
    and ps: "products (snd (updateProduct s localId updates now)) = (products s)[i := upd]"
    using Some by (simp add: updateProduct_def Let_def)
  have r: "remote_id upd = remote_id (products s ! i)"
    using upd Some assms(2) by (auto simp: updateProduct_def Let_def spread_def)
  have st: "status upd = (if truthy (remote_id (products s ! i)) then Modified
                          else status (products s ! i))"
    using upd Some by (auto simp: updateProduct_def Let_def)
  have "lifecycleOk upd"
    using ok r st by (simp add: lifecycleOk_def split: if_splits)
  with assms(1) show ?thesis
    unfolding ps by (rule list_all_update)
qed

lemma applyCreated_lifecycle:
  assumes "list_all lifecycleOk ps" "pr_remote_id c \<noteq> []"
  shows "list_all lifecycleOk (applyCreated ts c ps)"
  using assms
  by (auto simp: applyCreated_def lifecycleOk_def truthy_def intro!: list_all_update
      split: option.splits)

lemma createdLoop_lifecycle:
  "list_all lifecycleOk ps \<Longrightarrow> list_all (\<lambda>c. pr_remote_id c \<noteq> []) cs \<Longrightarrow>
   list_all lifecycleOk (createdLoop ts cs ps)"
  by (induction cs arbitrary: ps) (auto simp: applyCreated_lifecycle)

lemma applyUpdated_lifecycle:
  assumes "list_all lifecycleOk ps" "foundSynced ps u"
  shows "list_all lifecycleOk (applyUpdated ts u ps)"
  using assms
  by (auto simp: applyUpdated_def foundSynced_def findIndex_find lifecycleOk_def
      intro!: list_all_update split: option.splits)

lemma applyUpdated_remote [simp]: "map remote_id (applyUpdated ts u ps) = map remote_id ps"
  by (auto simp: applyUpdated_def map_update list_update_same_conv dest: findIndex_Some
      split: option.splits)

lemma foundSynced_cong:
  assumes "map local_id xs = map local_id ys" "map remote_id xs = map remote_id ys"
  shows "foundSynced xs u = foundSynced ys u"
proof -
  have fi: "findIndex (\<lambda>p. local_id p = pr_local_id u) xs
              = findIndex (\<lambda>p. local_id p = pr_local_id u) ys"
    using assms(1) by (rule findIndex_cong_map)
  have len: "length xs = length ys" using assms(1) by (rule map_eq_imp_length_eq)
  show ?thesis
  proof (cases "findIndex (\<lambda>p. local_id p = pr_local_id u) ys")
    case None
    with fi show ?thesis by (simp add: foundSynced_def findIndex_find)
  next
    case (Some i)
    from findIndex_Some [OF Some] have i: "i < length ys" by simp
    have "remote_id (xs ! i) = remote_id (ys ! i)"
      using assms(2) i len by (metis nth_map)
    with fi Some show ?thesis by (simp add: foundSynced_def findIndex_find)
  qed
qed

lemma updatedLoop_lifecycle:
  "list_all lifecycleOk ps \<Longrightarrow> list_all (foundSynced ps) us \<Longrightarrow>
   list_all lifecycleOk (updatedLoop ts us ps)"
proof (induction us arbitrary: ps)
  case Nil
  then show ?case by simp
next
  case (Cons u us)
  have ok: "list_all lifecycleOk (applyUpdated ts u ps)"
    using Cons.prems by (simp add: applyUpdated_lifecycle)
  have "foundSynced (applyUpdated ts u ps) = foundSynced ps"
    using foundSynced_cong [OF applyUpdated_ids applyUpdated_remote] by blast
  with Cons.prems have "list_all (foundSynced (applyUpdated ts u ps)) us" by simp
  from Cons.IH [OF ok this] show ?case by simp
qed

lemma step_lifecycle:
  assumes "list_all lifecycleOk (products s)" "lifecycleGuard s op"
  shows "list_all lifecycleOk (products (step s op))"
proof (cases op)
  case (OpCreate product now_ms rnd t1 t2)
  with assms show ?thesis
    by (simp add: createProduct_def Let_def lifecycleOk_def truthy_def)
next
  case (OpUpdate localId updates now)
  with assms show ?thesis by (simp add: updateProduct_lifecycle)
next
  case (OpMarkReady localId now)
  with assms show ?thesis by (simp add: markReady_def updateProduct_lifecycle noUpdates_def)
next
  case (OpDelete localId)
  with assms show ?thesis
    by (simp add: deleteProduct_def list_all_splice1 split: option.splits)
next
  case (OpApply r)
  with assms have c: "list_all (\<lambda>c. pr_remote_id c \<noteq> []) (created (results r))"
    and u: "list_all (foundSynced (createdLoop (timestamp r) (created (results r)) (products s)))
              (updated (results r))"
    by simp_all
  from createdLoop_lifecycle [OF assms(1) c]
  have "list_all lifecycleOk (createdLoop (timestamp r) (created (results r)) (products s))" .
  from updatedLoop_lifecycle [OF this u] OpApply show ?thesis
    by (simp add: applySyncResults_def)
qed

lemma run_lifecycle:
  "list_all lifecycleOk (products s) \<Longrightarrow> guarded lifecycleGuard s ops \<Longrightarrow>
   list_all lifecycleOk (products (run s ops))"
  by (induction ops arbitrary: s) (auto simp: step_lifecycle)

text \<open>
  Claim C2, as amended: along every sequence of operations from the default store in
  which each operation meets \<open>lifecycleGuard\<close>, after any number \<open>n\<close> of them every
  product of the store satisfies the lifecycle rule: one without a \<^verbatim>\<open>remote_id\<close> is not
  \<^verbatim>\<open>synced\<close> or \<^verbatim>\<open>modified\<close>, one with a \<^verbatim>\<open>remote_id\<close> is not \<^verbatim>\<open>draft\<close> or \<^verbatim>\<open>ready\<close>.
\<close>

theorem lifecycle_monotone:
  assumes "guarded lifecycleGuard getDefaultStore ops"
  shows "list_all lifecycleOk (products (run getDefaultStore (take n ops)))"
proof -
  have "guarded lifecycleGuard getDefaultStore (take n ops @ drop n ops)"
    using assms by simp
  then have "guarded lifecycleGuard getDefaultStore (take n ops)"
    unfolding guarded_append by simp
  moreover have "list_all lifecycleOk (products getDefaultStore)"
    by (simp add: getDefaultStore_def)
  ultimately show ?thesis by (rule run_lifecycle [rotated])
qed

lemma step_opCreateExample: "step getDefaultStore opCreateExample = draftStore"
  by (simp add: opCreateExample_def draftStore_def)

text \<open>
  Claim C2 as stated, for every sequence of operations, fails. After \<^verbatim>\<open>createProduct\<close> and
  an \<^verbatim>\<open>applySyncResults\<close> whose \<^verbatim>\<open>updated\<close> list names the new product, the product has no
  \<^verbatim>\<open>remote_id\<close> and status \<^verbatim>\<open>synced\<close>. After \<^verbatim>\<open>createProduct\<close> and
  \<^verbatim>\<open>updateProduct(id, { remote_id: 'r1' })\<close> the product has a \<^verbatim>\<open>remote_id\<close> and status
  \<^verbatim>\<open>draft\<close>. After \<^verbatim>\<open>createProduct\<close> and an \<^verbatim>\<open>applySyncResults\<close> whose created pair carries
  the empty string, the product is \<^verbatim>\<open>synced\<close> with a \<^verbatim>\<open>remote_id\<close> that the code treats as
  none.
\<close>

theorem lifecycle_counterexample:
  "map (\<lambda>p. (remote_id p, status p, lifecycleOk p))
     (products (run getDefaultStore [opCreateExample, OpApply updateOnlyResult]))
     = [(None, Synced, False)]
   \<and> map (\<lambda>p. (remote_id p, status p, lifecycleOk p))
       (products (run getDefaultStore
          [opCreateExample,
           OpUpdate ''local_loyw3v284fzyo82mv'' (noUpdates\<lparr>u_remote_id := Some (Some ''r1'')\<rparr>)
             ''2024-01-02T00:00:00.000Z'']))
     = [(Some ''r1'', Draft, False)]
   \<and> map (\<lambda>p. (remote_id p, status p, lifecycleOk p))
       (products (run getDefaultStore
          [opCreateExample,
           OpApply (createResult\<lparr>results := (results createResult)\<lparr>created :=
             [\<lparr> pr_local_id = ''local_loyw3v284fzyo82mv'', pr_remote_id = [] \<rparr>]\<rparr>\<rparr>)]))
     = [(Some [], Synced, False)]"
  by (simp add: step_opCreateExample applySyncResults_def updateOnlyResult_def applyUpdated_def
      createResult_def applyCreated_def lifecycleOk_def
      draftStore_products updateProduct_def Let_def noUpdates_def spread_def truthy_def)

lemma scenario_run:
  "map (\<lambda>p. (local_id p, remote_id p, status p, price p))
     (products (run getDefaultStore scenarioOps))
   = [(''local_loyw3v284fzyo82mv'', Some ''r1'', Modified, 999)]"
  by (simp add: scenarioOps_def step_opCreateExample applySyncResults_def createResult_def
      applyCreated_def markReady_def
      draftStore_products updateProduct_def Let_def noUpdates_def spread_def truthy_def)

lemma scenario_guarded: "guarded lifecycleGuard getDefaultStore scenarioOps"
  by (simp add: scenarioOps_def step_opCreateExample applySyncResults_def createResult_def
      applyCreated_def markReady_def opCreateExample_def exampleProduct_def
      draftStore_products updateProduct_def Let_def noUpdates_def spread_def truthy_def)

theorem lifecycle_monotone_witness:
  "guarded lifecycleGuard getDefaultStore scenarioOps
   \<and> list_all lifecycleOk (products (run getDefaultStore scenarioOps))
   \<and> map (\<lambda>p. (local_id p, remote_id p, status p, price p))
        (products (run getDefaultStore scenarioOps))
       = [(''local_loyw3v284fzyo82mv'', Some ''r1'', Modified, 999)]"
  using lifecycle_monotone [OF scenario_guarded, of 4] scenario_guarded scenario_run
  by (simp add: scenarioOps_def)

subsection \<open>Identifiers\<close>

lemma updateProduct_ids:
  "map local_id (products (snd (updateProduct s localId updates now))) = map local_id (products s)"
  by (auto simp: updateProduct_def Let_def map_update list_update_same_conv dest: findIndex_Some
      split: option.splits)

lemma updateProduct_result_id:
  "fst (updateProduct s localId updates now) = Some p \<Longrightarrow> local_id p = localId"
  by (auto simp: updateProduct_def Let_def dest: findIndex_Some split: option.splits)

lemma updateProduct_remotes:
  "u_remote_id updates = None \<Longrightarrow>
   map remote_id (products (snd (updateProduct s localId updates now)))
     = map remote_id (products s)"
  by (auto simp: updateProduct_def Let_def spread_def map_update list_update_same_conv
      dest: findIndex_Some split: option.splits)

lemma distinct_splice1: "distinct (map f xs) \<Longrightarrow> distinct (map f (splice1 i xs))"
proof -
  assume d: "distinct (map f xs)"
  have "map f xs = map f (take i xs) @ map f (drop i xs)"
    by (metis append_take_drop_id map_append)
  with d have "distinct (map f (take i xs) @ map f (drop i xs))" by simp
  moreover have "set (drop (Suc i) xs) \<subseteq> set (drop i xs)"
    by (simp add: set_drop_subset_set_drop)
  moreover have "distinct (map f (drop (Suc i) xs))"
    using d by (metis distinct_drop drop_map)
  ultimately show ?thesis
    by (auto simp: splice1_def)
qed

lemma step_distinct:
  assumes "distinct (map local_id (products s))" "idsGuard s op"
  shows "distinct (map local_id (products (step s op)))"
proof (cases op)
  case (OpCreate product now_ms rnd t1 t2)
  with assms show ?thesis by (simp add: createProduct_def Let_def)
next
  case (OpUpdate localId updates now)
  with assms show ?thesis by (simp add: updateProduct_ids)
next
  case (OpMarkReady localId now)
  with assms show ?thesis by (simp add: markReady_def updateProduct_ids)
next
  case (OpDelete localId)
  with assms show ?thesis
    by (simp add: deleteProduct_def distinct_splice1 split: option.splits)
next
  case (OpApply r)
  with assms show ?thesis by simp
qed

lemma run_distinct:
  "distinct (map local_id (products s)) \<Longrightarrow> guarded idsGuard s ops \<Longrightarrow>
   distinct (map local_id (products (run s ops)))"
  by (induction ops arbitrary: s) (auto simp: step_distinct)

lemma same_id_same_product:
  assumes "distinct (map local_id ps)" "p \<in> set ps" "q \<in> set ps" "local_id q = local_id p"
  shows "q = p"
  using assms by (meson distinct_map inj_onD)

lemma by_position:
  assumes "map local_id ps' = map local_id ps" "distinct (map local_id ps)"
    "p \<in> set ps" "q \<in> set ps'" "local_id q = local_id p"
  shows "\<exists>i < length ps. ps ! i = p \<and> ps' ! i = q"
proof -
  from assms(4) obtain i where i: "i < length ps'" "ps' ! i = q"
    by (auto simp: in_set_conv_nth)
  have len: "length ps' = length ps" using assms(1) by (rule map_eq_imp_length_eq)
  have "local_id (ps ! i) = local_id (ps' ! i)"
    using assms(1) i(1) len by (metis nth_map)
  with i assms(5) have "local_id (ps ! i) = local_id p" by simp
  moreover have "ps ! i \<in> set ps" using i(1) len by simp
  ultimately have "ps ! i = p"
    using same_id_same_product [OF assms(2) assms(3)] by blast
  with i len show ?thesis by auto
qed

lemma lastRemote_Some:
  "lastRemote cs l = Some r \<Longrightarrow> \<exists>c \<in> set cs. pr_local_id c = l \<and> pr_remote_id c = r"
  by (induction cs) (auto split: option.splits if_splits)

lemma find_distinct:
  assumes "distinct (map local_id (ps :: LocalProduct list))" "p \<in> set ps"
  shows "find (\<lambda>x. local_id x = local_id p) ps = Some p"
proof -
  from assms(2) obtain i where i: "i < length ps" "ps ! i = p"
    by (auto simp: in_set_conv_nth)
  from isFirst_distinct [OF assms(1) i(1)] i show ?thesis
    by (simp add: isFirst_def findIndex_find)
qed

lemma step_remote_stable:
  assumes d: "distinct (map local_id (products s))" and g: "idsGuard s op"
    and p: "p \<in> set (products s)" and q: "q \<in> set (products (step s op))"
    and l: "local_id q = local_id p" and v: "remote_id p = Some v"
  shows "remote_id q = Some v"
proof (cases op)
  case (OpCreate product now_ms rnd t1 t2)
  with q have "q \<in> set (products s) \<or> local_id q = generateId now_ms rnd"
    by (auto simp: createProduct_def Let_def)
  moreover have "local_id p \<in> local_id ` set (products s)"
    using p by (rule imageI)
  then have "local_id q \<noteq> generateId now_ms rnd"
    using g l OpCreate by auto
  ultimately have "q \<in> set (products s)" by simp
  from same_id_same_product [OF d p this l] v show ?thesis by simp
next
  case (OpUpdate localId updates now)
  let ?ps' = "products (snd (updateProduct s localId updates now))"
  from g OpUpdate have u: "u_remote_id updates = None" by simp
  from q OpUpdate have q': "q \<in> set ?ps'" by simp
  from by_position [OF updateProduct_ids d p q' l]
  obtain i where i: "i < length (products s)" "products s ! i = p" "?ps' ! i = q" by auto
  have "remote_id (?ps' ! i) = remote_id (products s ! i)"
    using updateProduct_remotes [OF u, of s localId now] i(1) by (metis nth_map length_map)
  with i v show ?thesis by simp
next
  case (OpMarkReady localId now)
  let ?u = "noUpdates\<lparr>u_status := Some Ready\<rparr>"
  let ?ps' = "products (snd (updateProduct s localId ?u now))"
  have u: "u_remote_id ?u = None" by (simp add: noUpdates_def)
  from q OpMarkReady have q': "q \<in> set ?ps'" by (simp add: markReady_def)
  from by_position [OF updateProduct_ids d p q' l]
  obtain i where i: "i < length (products s)" "products s ! i = p" "?ps' ! i = q" by auto
  have "remote_id (?ps' ! i) = remote_id (products s ! i)"
    using updateProduct_remotes [OF u, of s localId now] i(1) by (metis nth_map length_map)
  with i v show ?thesis by simp
next
  case (OpDelete localId)
  with q have "q \<in> set (products s)"
    by (auto simp: deleteProduct_def splice1_def split: option.splits
        dest: in_set_takeD in_set_dropD)
  from same_id_same_product [OF d p this l] v show ?thesis by simp
next
  case (OpApply r)
  from q OpApply have q': "q \<in> set (products (applySyncResults s r))" by simp
  from by_position [OF applySyncResults_ids d p q' l]
  obtain i where i: "i < length (products s)" "products s ! i = p"
    "products (applySyncResults s r) ! i = q" by auto
  have qs: "q = syncedOn r p"
    using applySyncResults_distinct [OF d, of r] i by simp
  have rq: "remote_id q =
              (case lastRemote (created (results r)) (local_id p) of
                 None \<Rightarrow> remote_id p | Some x \<Rightarrow> Some x)"
    unfolding qs
    by (simp add: syncedOn_def createdOn_char updatedOn_char setUpdated_def split: option.splits)
  show ?thesis
  proof (cases "lastRemote (created (results r)) (local_id p)")
    case None
    with rq v show ?thesis by simp
  next
    case (Some x)
    from lastRemote_Some [OF Some] obtain c where c: "c \<in> set (created (results r))"
      "pr_local_id c = local_id p" "pr_remote_id c = x" by auto
    from g OpApply c(1) have
      "case find (\<lambda>p. local_id p = pr_local_id c) (products s) of
         None \<Rightarrow> True
       | Some p \<Rightarrow> remote_id p = None \<or> remote_id p = Some (pr_remote_id c)"
      by (simp add: list_all_iff)
    with find_distinct [OF d p] c v have "x = v" by simp
    with rq Some show ?thesis by simp
  qed
qed

text \<open>
  Claim C4, as amended. No \<^verbatim>\<open>updateProduct\<close> call changes the \<^verbatim>\<open>local_id\<close> of any product,
  whatever its argument holds. Along every sequence of operations from the default store
  in which each operation meets \<open>idsGuard\<close>, no two products of the store share a
  \<^verbatim>\<open>local_id\<close>, before and after each operation \<open>op\<close>, and \<open>op\<close> leaves the \<^verbatim>\<open>remote_id\<close> of
  every product that has one, and is still in the store, as it was.
\<close>

theorem identifiers_stable:
  "map local_id (products (snd (updateProduct s0 localId updates now)))
     = map local_id (products s0)
   \<and> (guarded idsGuard getDefaultStore (ops @ [op]) \<longrightarrow>
        distinct (map local_id (products (run getDefaultStore ops)))
        \<and> distinct (map local_id (products (run getDefaultStore (ops @ [op]))))
        \<and> (\<forall>p \<in> set (products (run getDefaultStore ops)).
             \<forall>q \<in> set (products (run getDefaultStore (ops @ [op]))).
               local_id q = local_id p \<and> remote_id p \<noteq> None \<longrightarrow> remote_id q = remote_id p))"
proof -
  have a: "map local_id (products (snd (updateProduct s0 localId updates now)))
     = map local_id (products s0)"
    by (rule updateProduct_ids)
  have b: "distinct (map local_id (products (run getDefaultStore ops)))
        \<and> distinct (map local_id (products (run getDefaultStore (ops @ [op]))))
        \<and> (\<forall>p \<in> set (products (run getDefaultStore ops)).
             \<forall>q \<in> set (products (run getDefaultStore (ops @ [op]))).
               local_id q = local_id p \<and> remote_id p \<noteq> None \<longrightarrow> remote_id q = remote_id p)"
    if g: "guarded idsGuard getDefaultStore (ops @ [op])"
  proof -
    let ?s = "run getDefaultStore ops"
    have d0: "distinct (map local_id (products getDefaultStore))"
      by (simp add: getDefaultStore_def)
    from g have g1: "guarded idsGuard getDefaultStore ops" and g2: "idsGuard ?s op"
      by (simp_all add: guarded_append)
    from run_distinct [OF d0 g1] have d: "distinct (map local_id (products ?s))" .
    from run_distinct [OF d0 g] have d': "distinct (map local_id (products (run getDefaultStore (ops @ [op]))))" .
    have r: "run getDefaultStore (ops @ [op]) = step ?s op"
      by (simp add: run_append)
    have "remote_id q = remote_id p"
      if "p \<in> set (products ?s)" "q \<in> set (products (step ?s op))"
        "local_id q = local_id p" "remote_id p \<noteq> None" for p q
    proof -
      from that(4) obtain v where v: "remote_id p = Some v" by auto
      from step_remote_stable [OF d g2 that(1) that(2) that(3) v] v show ?thesis by simp
    qed
    with d d' r show ?thesis by auto
  qed
  from a b show ?thesis by blast
qed

text \<open>
  Claim C4 as stated says that a \<^verbatim>\<open>remote_id\<close>, once set, is changed by no later
  operation, and that no two live products share a \<^verbatim>\<open>local_id\<close>. After \<^verbatim>\<open>createProduct\<close> and
  an \<^verbatim>\<open>applySyncResults\<close> that creates the product as \<^verbatim>\<open>r1\<close>, the call
  \<^verbatim>\<open>updateProduct(id, { remote_id: 'r2' })\<close> leaves it with \<^verbatim>\<open>r2\<close>, and so does a second
  \<^verbatim>\<open>applySyncResults\<close> whose created pair carries \<^verbatim>\<open>r2\<close>. Two \<^verbatim>\<open>createProduct\<close> calls for
  which \<^verbatim>\<open>generateId\<close> reads the same millisecond and the same random string leave two
  products with one \<^verbatim>\<open>local_id\<close>: the code does not compare a new id with those in the
  store.
\<close>

theorem identifiers_counterexample:
  "map (\<lambda>p. (local_id p, remote_id p))
     (products (run getDefaultStore [opCreateExample, OpApply createResult]))
     = [(''local_loyw3v284fzyo82mv'', Some ''r1'')]
   \<and> map (\<lambda>p. (local_id p, remote_id p))
       (products (run getDefaultStore
          [opCreateExample, OpApply createResult,
           OpUpdate ''local_loyw3v284fzyo82mv'' (noUpdates\<lparr>u_remote_id := Some (Some ''r2'')\<rparr>)
             ''2024-01-06T00:00:00.000Z'']))
     = [(''local_loyw3v284fzyo82mv'', Some ''r2'')]
   \<and> map (\<lambda>p. (local_id p, remote_id p))
       (products (run getDefaultStore
          [opCreateExample, OpApply createResult,
           OpApply (createResult\<lparr>results := (results createResult)\<lparr>created :=
             [\<lparr> pr_local_id = ''local_loyw3v284fzyo82mv'', pr_remote_id = ''r2'' \<rparr>]\<rparr>\<rparr>)]))
     = [(''local_loyw3v284fzyo82mv'', Some ''r2'')]
   \<and> map local_id (products (run getDefaultStore [opCreateExample, opCreateExample]))
     = [''local_loyw3v284fzyo82mv'', ''local_loyw3v284fzyo82mv'']"
proof -
  have "step draftStore opCreateExample
          = draftStore\<lparr>products := products draftStore @ products draftStore\<rparr>"
    by (simp add: opCreateExample_def draftStore_def createProduct_def Let_def
        getDefaultStore_def)
  then have "map local_id (products (run getDefaultStore [opCreateExample, opCreateExample]))
     = [''local_loyw3v284fzyo82mv'', ''local_loyw3v284fzyo82mv'']"
    by (simp add: step_opCreateExample draftStore_products)
  then show ?thesis
    by (simp add: step_opCreateExample applySyncResults_def createResult_def applyCreated_def
        draftStore_products updateProduct_def Let_def noUpdates_def spread_def truthy_def)
qed

lemma scenario_ids_guarded: "guarded idsGuard getDefaultStore scenarioOps"
  by (simp add: scenarioOps_def step_opCreateExample applySyncResults_def createResult_def
      applyCreated_def markReady_def
      draftStore_products updateProduct_def Let_def noUpdates_def spread_def truthy_def)
    (simp add: opCreateExample_def getDefaultStore_def)

lemma scenario_before_update:
  "map (\<lambda>p. (local_id p, remote_id p, status p, price p))
     (products (run getDefaultStore (butlast scenarioOps)))
   = [(''local_loyw3v284fzyo82mv'', Some ''r1'', Synced, 500)]"
  by (simp add: scenarioOps_def step_opCreateExample applySyncResults_def createResult_def
      applyCreated_def markReady_def
      draftStore_products updateProduct_def Let_def noUpdates_def spread_def truthy_def)

theorem identifiers_stable_witness:
  "guarded idsGuard getDefaultStore (butlast scenarioOps @ [last scenarioOps])
   \<and> distinct (map local_id (products (run getDefaultStore scenarioOps)))
   \<and> map (\<lambda>p. (local_id p, remote_id p, status p, price p))
        (products (run getDefaultStore (butlast scenarioOps)))
       = [(''local_loyw3v284fzyo82mv'', Some ''r1'', Synced, 500)]
   \<and> map (\<lambda>p. (local_id p, remote_id p, status p, price p))
        (products (run getDefaultStore scenarioOps))
       = [(''local_loyw3v284fzyo82mv'', Some ''r1'', Modified, 999)]"
proof -
  have e: "butlast scenarioOps @ [last scenarioOps] = scenarioOps"
    by (simp add: scenarioOps_def)
  have g: "guarded idsGuard getDefaultStore (butlast scenarioOps @ [last scenarioOps])"
    unfolding e by (rule scenario_ids_guarded)
  from identifiers_stable [of getDefaultStore "''x''" noUpdates "''t''" "butlast scenarioOps"
      "last scenarioOps"] g
  have "distinct (map local_id (products (run getDefaultStore
          (butlast scenarioOps @ [last scenarioOps]))))"
    by blast
  then have "distinct (map local_id (products (run getDefaultStore scenarioOps)))"
    unfolding e .
  with g scenario_before_update scenario_run show ?thesis by simp
qed

subsection \<open>push\<close>

lemma request_outcome:
  "request fetch parse c method path body =
     (case fetch (requestInit c method path body) of
        Responds json charged remaining \<Rightarrow>
          json\<lparr> headers :=
            Some \<lparr> creditsCharged = creditsHeader parse charged,
                   creditsRemaining = creditsHeader parse remaining \<rparr> \<rparr>
      | Throws e \<Rightarrow> networkError e)"
  by (simp add: request_def)








subsection \<open>save and load\<close>

text \<open>\<^verbatim>\<open>save\<close> swallows a failed import or write: the disk is then as it was.\<close>

lemma save_failed:
  "\<not> writeOk env \<or> (\<not> fs m \<and> \<not> importOk env) \<Longrightarrow> snd (save env m d) = d"
  by (auto simp: save_def)



end
